theory Spec2Isabelle
  imports Main "HOL-Library.Sublist"
begin

section \<open>The notebook of lab3_6.py\<close>

text \<open>
  The module keeps a process-wide counter \<open>last_id\<close>, a class \<open>Note\<close>, a class
  \<open>Notebook\<close> holding a Python list of notes, and a class \<open>Menu\<close> that drives a
  notebook from the terminal. Python integers are unbounded (\<open>int\<close>); a Python
  string is a \<open>string\<close>, one \<open>char\<close> standing for one element of the text.
  A notebook is the list of the notes it holds, in insertion order; the notebook's
  methods only ever append a freshly constructed note, so no note object is held
  twice and the list of note values carries the whole state of a notebook.
\<close>

subsection \<open>Data\<close>

text \<open>
  The attribute \<open>tags\<close> is dynamically typed: the constructor's default and the
  shell pass a string, the doctest of \<open>modify_tags\<close> passes a list of strings.
\<close>

datatype py_tags = TagsText string | TagsList "string list"

text \<open>The value of \<open>datetime.date.today()\<close>: year, month, day.\<close>

datatype date = Date int int int

record Note =
  memo :: string
  tags :: py_tags
  creation_date :: date
  id_note :: int

type_synonym notebook = "Note list"

text \<open>
  The argument \<open>note_id\<close> of the lookup is dynamically typed as well: the doctests
  pass the integer id, the shell passes the line it read.
\<close>

datatype py_id = IdInt int | IdStr string

subsection \<open>Python's built-in \<open>str\<close> and \<open>in\<close>\<close>

definition digit_char :: "nat \<Rightarrow> char" where
  "digit_char d = ''0123456789'' ! d"

fun str_nat :: "nat \<Rightarrow> string" where
  "str_nat n = (if n < 10 then [digit_char n]
                else str_nat (n div 10) @ [digit_char (n mod 10)])"

declare str_nat.simps [simp del]

text \<open>\<open>str(i)\<close> for an integer: decimal digits, a leading minus sign when negative.\<close>

definition str_int :: "int \<Rightarrow> string" where
  "str_int i = (if i < 0 then CHR ''-'' # str_nat (nat (- i)) else str_nat (nat i))"

fun str_id :: "py_id \<Rightarrow> string" where
  "str_id (IdInt i) = str_int i"
| "str_id (IdStr s) = s"

text \<open>
  \<open>f in s\<close> for two strings: \<open>f\<close> occurs in \<open>s\<close> as a contiguous run, scanning the
  start positions from the left; the empty string occurs in every string.
\<close>

fun str_contains :: "string \<Rightarrow> string \<Rightarrow> bool" where
  "str_contains [] f = (f = [])"
| "str_contains (c # cs) f = (take (length f) (c # cs) = f \<or> str_contains cs f)"

text \<open>\<open>f in t\<close> for the two shapes of \<open>tags\<close>: substring of a text, member of a list.\<close>

fun tags_contains :: "py_tags \<Rightarrow> string \<Rightarrow> bool" where
  "tags_contains (TagsText t) f = str_contains t f"
| "tags_contains (TagsList l) f = (f \<in> set l)"

subsection \<open>Note\<close>

text \<open>
  \<open>Note.__init__(memo, tags)\<close>: reads the date, increments the global counter and
  takes the new value as id. The counter is passed in and returned.
\<close>

definition Note_init :: "string \<Rightarrow> py_tags \<Rightarrow> date \<Rightarrow> int \<Rightarrow> Note \<times> int" where
  "Note_init m t today lid =
     (\<lparr>memo = m, tags = t, creation_date = today, id_note = lid + 1\<rparr>, lid + 1)"

text \<open>\<open>Note.match(filter)\<close>: \<open>filter in self.memo or filter in self.tags\<close>.\<close>

definition match :: "Note \<Rightarrow> string \<Rightarrow> bool" where
  "match n f = (str_contains (memo n) f \<or> tags_contains (tags n) f)"

subsection \<open>Notebook\<close>

text \<open>\<open>Notebook.__init__\<close>: the empty list.\<close>

definition Notebook_init :: notebook where
  "Notebook_init = []"

text \<open>
  \<open>Notebook.new_note(memo, tags)\<close>: appends \<open>Note(memo, tags)\<close>; the method has no
  return statement, so the caller gets \<open>None\<close> (the unit value here) beside the
  updated notebook and counter.
\<close>

definition new_note :: "notebook \<Rightarrow> string \<Rightarrow> py_tags \<Rightarrow> date \<Rightarrow> int \<Rightarrow> unit \<times> notebook \<times> int" where
  "new_note nb m t today lid =
     (case Note_init m t today lid of (n, lid') \<Rightarrow> ((), nb @ [n], lid'))"

text \<open>\<open>Notebook.search(filter)\<close>: the list comprehension over \<open>self.notes\<close>.\<close>

fun search :: "notebook \<Rightarrow> string \<Rightarrow> Note list" where
  "search [] f = []"
| "search (n # ns) f = (if match n f then n # search ns f else search ns f)"

text \<open>
  \<open>Notebook._find_note(note_id)\<close>: the loop returns the first note whose
  \<open>str(note.id)\<close> equals \<open>str(note_id)\<close>, and \<open>None\<close> after the last note.
\<close>

fun find_note :: "notebook \<Rightarrow> py_id \<Rightarrow> Note option" where
  "find_note [] nid = None"
| "find_note (n # ns) nid =
     (if str_int (id_note n) = str_id nid then Some n else find_note ns nid)"

text \<open>
  What \<open>_find_note\<close> returns is a reference to the note object inside the list;
  the callers assign to its attributes. \<open>find_note_ref\<close> is the same loop giving
  the position of that object in the list.
\<close>

fun find_note_ref :: "notebook \<Rightarrow> py_id \<Rightarrow> nat option" where
  "find_note_ref [] nid = None"
| "find_note_ref (n # ns) nid =
     (if str_int (id_note n) = str_id nid then Some 0
      else map_option Suc (find_note_ref ns nid))"

text \<open>
  \<open>Notebook.modify_memo(note_id, memo)\<close> and \<open>Notebook.modify_tags(note_id, tags)\<close>:
  a note object is always truthy, so \<open>if note:\<close> tests for \<open>None\<close>.
\<close>

definition modify_memo :: "notebook \<Rightarrow> py_id \<Rightarrow> string \<Rightarrow> notebook \<times> bool" where
  "modify_memo nb nid m =
     (case find_note_ref nb nid of
        Some i \<Rightarrow> (nb[i := (nb ! i)\<lparr>memo := m\<rparr>], True)
      | None \<Rightarrow> (nb, False))"

definition modify_tags :: "notebook \<Rightarrow> py_id \<Rightarrow> py_tags \<Rightarrow> notebook \<times> bool" where
  "modify_tags nb nid t =
     (case find_note_ref nb nid of
        Some i \<Rightarrow> (nb[i := (nb ! i)\<lparr>tags := t\<rparr>], True)
      | None \<Rightarrow> (nb, False))"

subsection \<open>The process: the counter shared by every notebook\<close>

text \<open>
  \<open>last_id\<close> is a module global, initialised to 0 when the module is loaded and
  shared by all notes, whichever notebook they go to (or none: the doctests also
  construct notes directly). A process holds the counter and its notebooks, each
  under a handle; a notebook is empty until notes are added to it.
\<close>

record process =
  last_id :: int
  notebooks :: "nat \<Rightarrow> notebook"

definition process_init :: process where
  "process_init = \<lparr>last_id = 0, notebooks = (\<lambda>h. Notebook_init)\<rparr>"

text \<open>
  One note creation: \<open>Note(memo, tags)\<close> on its own, or \<open>new_note(memo, tags)\<close> on
  the notebook with handle \<open>h\<close>. The created note is returned beside the new
  process state.
\<close>

datatype creation = BareNote string py_tags date | InNotebook nat string py_tags date

fun create :: "creation \<Rightarrow> process \<Rightarrow> Note \<times> process" where
  "create (BareNote m t d) ps =
     (case Note_init m t d (last_id ps) of
        (n, lid') \<Rightarrow> (n, ps\<lparr>last_id := lid'\<rparr>))"
| "create (InNotebook h m t d) ps =
     (case new_note (notebooks ps h) m t d (last_id ps) of
        (u, nb', lid') \<Rightarrow>
          (last nb', ps\<lparr>last_id := lid', notebooks := (notebooks ps)(h := nb')\<rparr>))"

fun creations :: "creation list \<Rightarrow> process \<Rightarrow> Note list \<times> process" where
  "creations [] ps = ([], ps)"
| "creations (c # cs) ps =
     (case create c ps of
        (n, ps') \<Rightarrow> (case creations cs ps' of (ns, ps'') \<Rightarrow> (n # ns, ps'')))"

subsection \<open>Menu\<close>

text \<open>
  What the shell writes to the terminal, in order: the prompt of an \<open>input\<close> call,
  a line of text, or the record of one note, \<open>"{0}: {1}\n{2}".format(note.id,
  note.tags, note.memo)\<close>, kept as the three values that are formatted.
\<close>

datatype out_item = Prompt string | PrintText string | PrintNote int py_tags string

text \<open>
  \<open>Menu.show_notes(notes=None)\<close>: \<open>not notes\<close> holds for \<open>None\<close> and for the empty
  list, and in both cases the notes of the notebook are taken instead.
\<close>

definition show_notes :: "notebook \<Rightarrow> Note list option \<Rightarrow> out_item list" where
  "show_notes nb notes =
     (let ns = (case notes of None \<Rightarrow> nb | Some l \<Rightarrow> if l = [] then nb else l)
      in map (\<lambda>n. PrintNote (id_note n) (tags n) (memo n)) ns)"

text \<open>\<open>Menu.search_notes()\<close>, given the line that \<open>input\<close> reads.\<close>

definition search_notes :: "notebook \<Rightarrow> string \<Rightarrow> out_item list" where
  "search_notes nb filter_line =
     Prompt ''Search for: '' # show_notes nb (Some (search nb filter_line))"

text \<open>\<open>Menu.add_note()\<close>, given the line read, the date and the counter.\<close>

definition add_note :: "notebook \<Rightarrow> string \<Rightarrow> date \<Rightarrow> int \<Rightarrow> notebook \<times> int \<times> out_item list" where
  "add_note nb memo_line today lid =
     (case new_note nb memo_line (TagsText []) today lid of
        (u, nb', lid') \<Rightarrow>
          (nb', lid', [Prompt ''Enter a memo: '', PrintText ''Your note has been added.'']))"

text \<open>
  \<open>Menu.modify_note()\<close>, given the three lines read. A string is truthy when it is
  not empty. The results of \<open>modify_memo\<close> and \<open>modify_tags\<close> are dropped. Beside
  the notebook and the output, the model records which notebook methods the
  handler calls, with their arguments.
\<close>

datatype call = CallModifyMemo py_id string | CallModifyTags py_id py_tags

definition modify_note ::
  "notebook \<Rightarrow> string \<Rightarrow> string \<Rightarrow> string \<Rightarrow> notebook \<times> out_item list \<times> call list" where
  "modify_note nb id_line memo_line tags_line =
     (let (nb1, calls1) =
            (if memo_line \<noteq> []
             then (fst (modify_memo nb (IdStr id_line) memo_line),
                   [CallModifyMemo (IdStr id_line) memo_line])
             else (nb, []));
          (nb2, calls2) =
            (if tags_line \<noteq> []
             then (fst (modify_tags nb1 (IdStr id_line) (TagsText tags_line)),
                   [CallModifyTags (IdStr id_line) (TagsText tags_line)])
             else (nb1, []))
      in (nb2,
          [Prompt ''Enter a note id: '', Prompt ''Enter a memo: '', Prompt ''Enter tags: ''],
          calls1 @ calls2))"

subsection \<open>A notebook to run the operations on\<close>

text \<open>
  The notebook of the doctests after two calls of \<open>new_note\<close> in a fresh process:
  \<open>"hello world"\<close> without tags and \<open>"hello again"\<close> with a list of labels.
\<close>

definition two_notes :: notebook where
  "two_notes =
     [\<lparr>memo = ''hello world'', tags = TagsText [], creation_date = Date 2026 11 4, id_note = 1\<rparr>,
      \<lparr>memo = ''hello again'', tags = TagsList [''greet'', ''h''],
       creation_date = Date 2026 11 4, id_note = 2\<rparr>]"

section \<open>Properties\<close>

subsection \<open>Auxiliary facts\<close>


lemma str_contains_sublist: "str_contains s f \<longleftrightarrow> sublist f s"
proof (induction s)
  case Nil
  show ?case by auto
next
  case (Cons c cs)
  have "take (length f) (c # cs) = f \<longleftrightarrow> prefix f (c # cs)"
    by (metis append_eq_conv_conj prefix_def)
  with Cons show ?case by (simp add: sublist_Cons_right)
qed

lemma search_filter: "search nb f = filter (\<lambda>n. match n f) nb"
  by (induction nb) simp_all

lemma digit_char_inj: "a < 10 \<Longrightarrow> b < 10 \<Longrightarrow> digit_char a = digit_char b \<Longrightarrow> a = b"
  unfolding digit_char_def
  by (subst (asm) nth_eq_iff_index_eq) simp_all

lemma str_nat_not_Nil: "str_nat n \<noteq> []"
  by (subst str_nat.simps) simp

lemma str_nat_inj: "str_nat n = str_nat m \<Longrightarrow> n = m"
proof (induction n arbitrary: m rule: str_nat.induct)
  case (1 n)
  show ?case
  proof (cases "n < 10")
    case True
    show ?thesis
    proof (cases "m < 10")
      case m: True
      from "1.prems" True m have "digit_char n = digit_char m"
        by (simp add: str_nat.simps[of n] str_nat.simps[of m])
      with True m show ?thesis by (blast intro: digit_char_inj)
    next
      case m: False
      from "1.prems" True m have "[digit_char n] = str_nat (m div 10) @ [digit_char (m mod 10)]"
        by (simp add: str_nat.simps[of n] str_nat.simps[of m])
      then show ?thesis using str_nat_not_Nil[of "m div 10"] by simp
    qed
  next
    case False
    show ?thesis
    proof (cases "m < 10")
      case m: True
      from "1.prems" False m have "str_nat (n div 10) @ [digit_char (n mod 10)] = [digit_char m]"
        by (simp add: str_nat.simps[of n] str_nat.simps[of m])
      then show ?thesis using str_nat_not_Nil[of "n div 10"] by simp
    next
      case m: False
      from "1.prems" False m
      have e: "str_nat (n div 10) @ [digit_char (n mod 10)] = str_nat (m div 10) @ [digit_char (m mod 10)]"
        by (simp add: str_nat.simps[of n] str_nat.simps[of m])
      then have "str_nat (n div 10) = str_nat (m div 10)" and d: "digit_char (n mod 10) = digit_char (m mod 10)"
        by simp_all
      with "1.IH"[OF False] have q: "n div 10 = m div 10" by blast
      have r: "n mod 10 = m mod 10" by (rule digit_char_inj[OF _ _ d]) simp_all
      from q r show ?thesis by (metis div_mult_mod_eq)
    qed
  qed
qed

lemma digit_char_not_minus: "d < 10 \<Longrightarrow> digit_char d \<noteq> CHR ''-''"
proof -
  assume "d < 10"
  then have "digit_char d \<in> set ''0123456789''" unfolding digit_char_def
    by (intro nth_mem) simp
  then show ?thesis by auto
qed

lemma str_nat_hd: "hd (str_nat n) \<noteq> CHR ''-''"
proof (induction n rule: str_nat.induct)
  case (1 n)
  show ?case
  proof (cases "n < 10")
    case True
    then show ?thesis by (simp add: str_nat.simps[of n] digit_char_not_minus)
  next
    case False
    with 1 show ?thesis by (simp add: str_nat.simps[of n] str_nat_not_Nil)
  qed
qed

lemma str_int_inj: "str_int i = str_int j \<Longrightarrow> i = j"
proof -
  assume e: "str_int i = str_int j"
  have nm: "\<And>n m. CHR ''-'' # str_nat n \<noteq> str_nat m"
    using str_nat_hd by (metis list.sel(1))
  show ?thesis
  proof (cases "i < 0"; cases "j < 0")
    assume "i < 0" "j < 0"
    with e have "nat (- i) = nat (- j)" by (simp add: str_int_def str_nat_inj)
    with \<open>i < 0\<close> \<open>j < 0\<close> show ?thesis by simp
  next
    assume "i < 0" "\<not> j < 0"
    with e nm show ?thesis by (simp add: str_int_def)
  next
    assume "\<not> i < 0" "j < 0"
    with e nm[of "nat (- j)" "nat i"] show ?thesis by (simp add: str_int_def)
  next
    assume "\<not> i < 0" "\<not> j < 0"
    with e have "nat i = nat j" by (simp add: str_int_def str_nat_inj)
    with \<open>\<not> i < 0\<close> \<open>\<not> j < 0\<close> show ?thesis by simp
  qed
qed


lemma find_note_None: "find_note nb nid = None \<longleftrightarrow> (\<forall>n \<in> set nb. str_int (id_note n) \<noteq> str_id nid)"
  by (induction nb) auto

lemma find_note_Some:
  "find_note nb nid = Some n \<longleftrightarrow>
     (\<exists>pre post. nb = pre @ n # post \<and> str_int (id_note n) = str_id nid \<and>
        (\<forall>x \<in> set pre. str_int (id_note x) \<noteq> str_id nid))"
proof (induction nb)
  case Nil
  show ?case by simp
next
  case (Cons a nb)
  show ?case
  proof (cases "str_int (id_note a) = str_id nid")
    case True
    have "(a = n) \<longleftrightarrow> (\<exists>pre post. a # nb = pre @ n # post \<and> str_int (id_note n) = str_id nid \<and>
        (\<forall>x \<in> set pre. str_int (id_note x) \<noteq> str_id nid))" (is "?l \<longleftrightarrow> ?r")
    proof
      assume ?l
      with True have "a # nb = [] @ n # nb \<and> str_int (id_note n) = str_id nid \<and>
        (\<forall>x \<in> set []. str_int (id_note x) \<noteq> str_id nid)" by simp
      then show ?r by blast
    next
      assume ?r
      then obtain pre post where p: "a # nb = pre @ n # post"
        "\<forall>x \<in> set pre. str_int (id_note x) \<noteq> str_id nid" by blast
      with True show ?l by (cases pre) auto
    qed
    with True show ?thesis by simp
  next
    case False
    have "(\<exists>pre post. nb = pre @ n # post \<and> str_int (id_note n) = str_id nid \<and>
        (\<forall>x \<in> set pre. str_int (id_note x) \<noteq> str_id nid)) \<longleftrightarrow>
      (\<exists>pre post. a # nb = pre @ n # post \<and> str_int (id_note n) = str_id nid \<and>
        (\<forall>x \<in> set pre. str_int (id_note x) \<noteq> str_id nid))" (is "?l \<longleftrightarrow> ?r")
    proof
      assume ?l
      then obtain pre post where "nb = pre @ n # post" "str_int (id_note n) = str_id nid"
        "\<forall>x \<in> set pre. str_int (id_note x) \<noteq> str_id nid" by blast
      with False have "a # nb = (a # pre) @ n # post \<and> str_int (id_note n) = str_id nid \<and>
        (\<forall>x \<in> set (a # pre). str_int (id_note x) \<noteq> str_id nid)" by simp
      then show ?r by blast
    next
      assume ?r
      then obtain pre post where p: "a # nb = pre @ n # post" "str_int (id_note n) = str_id nid"
        "\<forall>x \<in> set pre. str_int (id_note x) \<noteq> str_id nid" by blast
      with False show ?l by (cases pre) auto
    qed
    with False Cons show ?thesis by simp
  qed
qed

lemma find_note_ref_None: "find_note_ref nb nid = None \<longleftrightarrow> find_note nb nid = None"
  by (induction nb) auto

lemma find_note_ref_Some:
  "find_note_ref nb nid = Some i \<Longrightarrow>
     i < length nb \<and> find_note nb nid = Some (nb ! i) \<and>
     str_int (id_note (nb ! i)) = str_id nid \<and>
     (\<forall>j < i. str_int (id_note (nb ! j)) \<noteq> str_id nid)"
proof (induction nb arbitrary: i)
  case Nil
  then show ?case by simp
next
  case (Cons a nb)
  show ?case
  proof (cases "str_int (id_note a) = str_id nid")
    case True
    with Cons.prems show ?thesis by simp
  next
    case False
    with Cons.prems obtain j where j: "find_note_ref nb nid = Some j" "i = Suc j" by auto
    from Cons.IH[OF j(1)] False j(2) show ?thesis by (auto simp: less_Suc_eq_0_disj)
  qed
qed

lemma find_note_find_note_ref: "find_note nb nid = map_option (\<lambda>i. nb ! i) (find_note_ref nb nid)"
  by (induction nb) (auto simp: option.map_comp comp_def)


lemma str_contains_Nil: "str_contains s []"
  by (cases s) simp_all

lemma create_id:
  "id_note (fst (create c ps)) = last_id ps + 1 \<and> last_id (snd (create c ps)) = last_id ps + 1"
  by (cases c) (simp_all add: Note_init_def new_note_def)

lemma creations_ids:
  "map id_note (fst (creations cs ps)) = [last_id ps + 1 .. last_id ps + int (length cs)] \<and>
   last_id (snd (creations cs ps)) = last_id ps + int (length cs)"
proof (induction cs arbitrary: ps)
  case Nil
  show ?case by simp
next
  case (Cons c cs)
  obtain n ps' where c: "create c ps = (n, ps')" by (cases "create c ps")
  obtain ns ps'' where cs: "creations cs ps' = (ns, ps'')" by (cases "creations cs ps'")
  from create_id[of c ps] c have n: "id_note n = last_id ps + 1" "last_id ps' = last_id ps + 1"
    by simp_all
  from Cons.IH[of ps'] cs n have ih: "map id_note ns = [last_id ps + 1 + 1 .. last_id ps + 1 + int (length cs)]"
    "last_id ps'' = last_id ps + 1 + int (length cs)" by simp_all
  have "[last_id ps + 1 .. last_id ps + int (length (c # cs))] =
        (last_id ps + 1) # [last_id ps + 1 + 1 .. last_id ps + 1 + int (length cs)]"
    by (subst upto_rec1) (simp_all add: add.commute add.left_commute)
  with c cs n ih show ?case by simp
qed

lemma find_note_ref_cong:
  "map id_note nb' = map id_note nb \<Longrightarrow> find_note_ref nb' nid = find_note_ref nb nid"
proof (induction nb arbitrary: nb')
  case Nil
  then show ?case by simp
next
  case (Cons a nb)
  then obtain b nb2 where b: "nb' = b # nb2" by (cases nb') auto
  with Cons.prems have "id_note b = id_note a" "map id_note nb2 = map id_note nb" by simp_all
  with Cons.IH[of nb2] b show ?case by simp
qed

lemma find_note_ref_None_iff:
  "find_note_ref nb nid = None \<longleftrightarrow> (\<forall>n \<in> set nb. str_int (id_note n) \<noteq> str_id nid)"
  by (simp add: find_note_ref_None find_note_None)

lemma modify_memo_found:
  "find_note_ref nb nid = Some i \<Longrightarrow> modify_memo nb nid v = (nb[i := (nb ! i)\<lparr>memo := v\<rparr>], True)"
  by (simp add: modify_memo_def)

lemma modify_tags_found:
  "find_note_ref nb nid = Some i \<Longrightarrow> modify_tags nb nid w = (nb[i := (nb ! i)\<lparr>tags := w\<rparr>], True)"
  by (simp add: modify_tags_def)

lemma modify_memo_missing: "find_note_ref nb nid = None \<Longrightarrow> modify_memo nb nid v = (nb, False)"
  by (simp add: modify_memo_def)

lemma modify_tags_missing: "find_note_ref nb nid = None \<Longrightarrow> modify_tags nb nid w = (nb, False)"
  by (simp add: modify_tags_def)

lemma find_note_ref_less: "find_note_ref nb nid = Some i \<Longrightarrow> i < length nb"
  using find_note_ref_Some[of nb nid i] by simp

lemma map_field_update:
  "i < length nb \<Longrightarrow> f (g (nb ! i)) = f (nb ! i) \<Longrightarrow> map f (nb[i := g (nb ! i)]) = map f nb"
  by (simp add: map_update list_update_same_conv)

lemma modify_memo_ids: "map id_note (fst (modify_memo nb nid v)) = map id_note nb"
proof (cases "find_note_ref nb nid")
  case None
  then show ?thesis by (simp add: modify_memo_def)
next
  case (Some i)
  from find_note_ref_less[OF Some] have "map id_note (nb[i := (nb ! i)\<lparr>memo := v\<rparr>]) = map id_note nb"
    by (simp add: map_update list_update_same_conv)
  with Some show ?thesis by (simp add: modify_memo_def)
qed

lemma modify_memo_tags: "map tags (fst (modify_memo nb nid v)) = map tags nb"
proof (cases "find_note_ref nb nid")
  case None
  then show ?thesis by (simp add: modify_memo_def)
next
  case (Some i)
  from find_note_ref_less[OF Some] have "map tags (nb[i := (nb ! i)\<lparr>memo := v\<rparr>]) = map tags nb"
    by (simp add: map_update list_update_same_conv)
  with Some show ?thesis by (simp add: modify_memo_def)
qed

lemma modify_memo_dates: "map creation_date (fst (modify_memo nb nid v)) = map creation_date nb"
proof (cases "find_note_ref nb nid")
  case None
  then show ?thesis by (simp add: modify_memo_def)
next
  case (Some i)
  from find_note_ref_less[OF Some]
  have "map creation_date (nb[i := (nb ! i)\<lparr>memo := v\<rparr>]) = map creation_date nb"
    by (simp add: map_update list_update_same_conv)
  with Some show ?thesis by (simp add: modify_memo_def)
qed

lemma modify_tags_ids: "map id_note (fst (modify_tags nb nid w)) = map id_note nb"
proof (cases "find_note_ref nb nid")
  case None
  then show ?thesis by (simp add: modify_tags_def)
next
  case (Some i)
  from find_note_ref_less[OF Some] have "map id_note (nb[i := (nb ! i)\<lparr>tags := w\<rparr>]) = map id_note nb"
    by (simp add: map_update list_update_same_conv)
  with Some show ?thesis by (simp add: modify_tags_def)
qed

lemma modify_tags_memos: "map memo (fst (modify_tags nb nid w)) = map memo nb"
proof (cases "find_note_ref nb nid")
  case None
  then show ?thesis by (simp add: modify_tags_def)
next
  case (Some i)
  from find_note_ref_less[OF Some] have "map memo (nb[i := (nb ! i)\<lparr>tags := w\<rparr>]) = map memo nb"
    by (simp add: map_update list_update_same_conv)
  with Some show ?thesis by (simp add: modify_tags_def)
qed

lemma modify_tags_dates: "map creation_date (fst (modify_tags nb nid w)) = map creation_date nb"
proof (cases "find_note_ref nb nid")
  case None
  then show ?thesis by (simp add: modify_tags_def)
next
  case (Some i)
  from find_note_ref_less[OF Some]
  have "map creation_date (nb[i := (nb ! i)\<lparr>tags := w\<rparr>]) = map creation_date nb"
    by (simp add: map_update list_update_same_conv)
  with Some show ?thesis by (simp add: modify_tags_def)
qed

lemma find_note_after_update:
  assumes r: "find_note_ref nb nid = Some i" and g: "\<And>n. id_note (g n) = id_note n"
  shows "find_note (nb[i := g (nb ! i)]) nid = Some (g (nb ! i))"
proof -
  from find_note_ref_Some[OF r] have i: "i < length nb" by simp
  have "map id_note (nb[i := g (nb ! i)]) = map id_note nb"
    using i by (simp add: map_update list_update_same_conv g)
  from find_note_ref_cong[OF this, of nid] r
  have "find_note_ref (nb[i := g (nb ! i)]) nid = Some i" by simp
  with i show ?thesis by (simp add: find_note_find_note_ref)
qed

lemma find_note_ref_int:
  "find_note_ref nb (IdInt k) \<noteq> None \<longleftrightarrow> k \<in> id_note ` set nb"
proof -
  have "find_note_ref nb (IdInt k) = None \<longleftrightarrow> k \<notin> id_note ` set nb"
    unfolding find_note_ref_None_iff by (auto dest: str_int_inj)
  then show ?thesis by simp
qed

lemma modify_memo_snd: "snd (modify_memo nb nid v) \<longleftrightarrow> find_note_ref nb nid \<noteq> None"
  by (simp add: modify_memo_def split: option.splits)

lemma modify_tags_snd: "snd (modify_tags nb nid w) \<longleftrightarrow> find_note_ref nb nid \<noteq> None"
  by (simp add: modify_tags_def split: option.splits)




lemma modify_memo_lookup:
  "find_note nb nid = Some n \<Longrightarrow>
     find_note (fst (modify_memo nb nid v)) nid = Some (n\<lparr>memo := v\<rparr>)"
proof -
  assume f: "find_note nb nid = Some n"
  then obtain i where r: "find_note_ref nb nid = Some i"
    using find_note_ref_None[of nb nid] by (cases "find_note_ref nb nid") auto
  from find_note_ref_Some[OF r] f have n: "nb ! i = n" by simp
  have "find_note (nb[i := (nb ! i)\<lparr>memo := v\<rparr>]) nid = Some ((nb ! i)\<lparr>memo := v\<rparr>)"
    by (rule find_note_after_update[OF r]) simp
  with n show ?thesis by (simp add: modify_memo_found[OF r])
qed

lemma modify_tags_lookup:
  "find_note nb nid = Some n \<Longrightarrow>
     find_note (fst (modify_tags nb nid w)) nid = Some (n\<lparr>tags := w\<rparr>)"
proof -
  assume f: "find_note nb nid = Some n"
  then obtain i where r: "find_note_ref nb nid = Some i"
    using find_note_ref_None[of nb nid] by (cases "find_note_ref nb nid") auto
  from find_note_ref_Some[OF r] f have n: "nb ! i = n" by simp
  have "find_note (nb[i := (nb ! i)\<lparr>tags := w\<rparr>]) nid = Some ((nb ! i)\<lparr>tags := w\<rparr>)"
    by (rule find_note_after_update[OF r]) simp
  with n show ?thesis by (simp add: modify_tags_found[OF r])
qed

lemma modify_memo_unfound: "find_note nb nid = None \<Longrightarrow> modify_memo nb nid v = (nb, False)"
  by (simp add: modify_memo_missing find_note_ref_None)

lemma modify_tags_unfound: "find_note nb nid = None \<Longrightarrow> modify_tags nb nid w = (nb, False)"
  by (simp add: modify_tags_missing find_note_ref_None)

lemma modify_note_calls:
  "snd (snd (modify_note nb i m t)) =
     (if m \<noteq> [] then [CallModifyMemo (IdStr i) m] else []) @
     (if t \<noteq> [] then [CallModifyTags (IdStr i) (TagsText t)] else [])"
  by (simp add: modify_note_def)

lemma modify_note_out:
  "fst (snd (modify_note nb i m t)) =
     [Prompt ''Enter a note id: '', Prompt ''Enter a memo: '', Prompt ''Enter tags: '']"
  by (simp add: modify_note_def)

lemma modify_note_notebook:
  "fst (modify_note nb i m t) =
     (if t \<noteq> []
      then fst (modify_tags (if m \<noteq> [] then fst (modify_memo nb (IdStr i) m) else nb)
                 (IdStr i) (TagsText t))
      else (if m \<noteq> [] then fst (modify_memo nb (IdStr i) m) else nb))"
  by (simp add: modify_note_def)

lemma find_note_str_of_int: "find_note nb (IdStr (str_int k)) = find_note nb (IdInt k)"
  by (induction nb) simp_all

lemma find_note_int_None: "find_note nb (IdInt k) = None \<longleftrightarrow> k \<notin> id_note ` set nb"
  unfolding find_note_None by (auto dest: str_int_inj)

lemma find_note_int_Some: "find_note nb (IdInt k) = Some n \<Longrightarrow> id_note n = k"
  by (auto simp: find_note_Some dest: str_int_inj)

lemma modify_memo_frame:
  assumes "snd (modify_memo nb nid v)"
  shows "\<exists>i<length nb. str_int (id_note (nb ! i)) = str_id nid \<and>
           memo (fst (modify_memo nb nid v) ! i) = v \<and>
           (\<forall>j<length nb. j \<noteq> i \<longrightarrow> fst (modify_memo nb nid v) ! j = nb ! j)"
proof -
  from assms obtain i where r: "find_note_ref nb nid = Some i"
    by (auto simp: modify_memo_snd)
  from find_note_ref_Some[OF r] have i: "i < length nb" "str_int (id_note (nb ! i)) = str_id nid"
    by simp_all
  have "memo (fst (modify_memo nb nid v) ! i) = v \<and>
        (\<forall>j<length nb. j \<noteq> i \<longrightarrow> fst (modify_memo nb nid v) ! j = nb ! j)"
    using i by (simp add: modify_memo_found[OF r])
  with i show ?thesis by blast
qed

lemma modify_tags_frame:
  assumes "snd (modify_tags nb nid w)"
  shows "\<exists>i<length nb. str_int (id_note (nb ! i)) = str_id nid \<and>
           tags (fst (modify_tags nb nid w) ! i) = w \<and>
           (\<forall>j<length nb. j \<noteq> i \<longrightarrow> fst (modify_tags nb nid w) ! j = nb ! j)"
proof -
  from assms obtain i where r: "find_note_ref nb nid = Some i"
    by (auto simp: modify_tags_snd)
  from find_note_ref_Some[OF r] have i: "i < length nb" "str_int (id_note (nb ! i)) = str_id nid"
    by simp_all
  have "tags (fst (modify_tags nb nid w) ! i) = w \<and>
        (\<forall>j<length nb. j \<noteq> i \<longrightarrow> fst (modify_tags nb nid w) ! j = nb ! j)"
    using i by (simp add: modify_tags_found[OF r])
  with i show ?thesis by blast
qed

lemma modify_length:
  "length (fst (modify_memo nb nid v)) = length nb"
  "length (fst (modify_tags nb nid w)) = length nb"
  using arg_cong[OF modify_memo_ids[of nb nid v], of length]
        arg_cong[OF modify_tags_ids[of nb nid w], of length]
  by simp_all

lemma search_notes_empty_result:
  "search nb f = [] \<Longrightarrow>
     search_notes nb f =
       Prompt ''Search for: '' # map (\<lambda>n. PrintNote (id_note n) (tags n) (memo n)) nb"
  by (simp add: search_notes_def show_notes_def)

subsection \<open>The claims\<close>

text \<open>
  Claim C2. For every filter and every notebook, \<open>search\<close> returns exactly the notes
  of the notebook that match the filter, in the order in which the notebook holds
  them: it is the notebook filtered by \<open>match\<close>, so its elements are the matching
  notes and it is a subsequence of the notebook. On the empty notebook it returns
  the empty list.
\<close>

theorem search_exactly_matching:
  "search nb f = filter (\<lambda>n. match n f) nb \<and>
   set (search nb f) = {n. n \<in> set nb \<and> match n f} \<and>
   subseq (search nb f) nb \<and>
   search Notebook_init f = []"
  by (simp add: search_filter Notebook_init_def)

text \<open>
  Claim C8. The empty string is contained in every memo, so every note matches the
  empty filter (whatever its tags are, text or list), and searching for the empty
  string returns the whole notebook in insertion order.
\<close>

theorem empty_filter_matches_all:
  "match n [] \<and> search nb [] = nb"
  by (simp add: search_filter match_def str_contains_Nil)

text \<open>
  Claim C6. \<open>match\<close> holds exactly when the filter is a contiguous run of the memo,
  or is contained in the tags: a contiguous run of the text when the tags are a
  text, an element of the list when they are a list of labels. A note created with
  memo \<open>m\<close> matches \<open>m\<close> and every contiguous part of \<open>m\<close>. The comparison is by
  characters as they are: \<open>hello\<close> does not match a memo \<open>Hello World\<close>; a list of
  labels is not searched inside its labels.
\<close>

theorem match_substring_or_tags:
  "(match n f \<longleftrightarrow>
      (\<exists>p q. memo n = p @ f @ q) \<or>
      (case tags n of TagsText t \<Rightarrow> (\<exists>p q. t = p @ f @ q) | TagsList l \<Rightarrow> f \<in> set l)) \<and>
   match (fst (Note_init m t d lid)) m \<and>
   match (fst (Note_init (p @ f @ q) t d lid)) f \<and>
   \<not> match (fst (Note_init ''Hello World'' (TagsText ''Work'') d lid)) ''hello'' \<and>
   \<not> match (fst (Note_init ''hello'' (TagsList [''greet'', ''h'']) d lid)) ''gre'' \<and>
   match (fst (Note_init ''hello'' (TagsList [''greet'', ''h'']) d lid)) ''greet''"
proof -
  have a: "match n f \<longleftrightarrow>
      (\<exists>p q. memo n = p @ f @ q) \<or>
      (case tags n of TagsText t \<Rightarrow> (\<exists>p q. t = p @ f @ q) | TagsList l \<Rightarrow> f \<in> set l)"
    by (cases "tags n") (simp_all add: match_def str_contains_sublist sublist_def)
  have b: "match (fst (Note_init m t d lid)) m"
    by (simp add: match_def Note_init_def str_contains_sublist)
  have c: "match (fst (Note_init (p @ f @ q) t d lid)) f"
    by (simp add: match_def Note_init_def str_contains_sublist)
  have d: "\<not> match (fst (Note_init ''Hello World'' (TagsText ''Work'') d lid)) ''hello''"
    by (simp add: match_def Note_init_def)
  have e: "\<not> match (fst (Note_init ''hello'' (TagsList [''greet'', ''h'']) d lid)) ''gre''"
    by (simp add: match_def Note_init_def)
  have g: "match (fst (Note_init ''hello'' (TagsList [''greet'', ''h'']) d lid)) ''greet''"
    by (simp add: match_def Note_init_def)
  from a b c d e g show ?thesis by blast
qed

text \<open>
  Claim C9. \<open>new_note\<close> appends exactly one note, the one built from its arguments
  with the next id, at the end of the notebook: the length grows by one, the notes
  held before are the same values at the same positions, and the call returns no
  value.
\<close>

theorem new_note_appends_one:
  "new_note nb m t d lid =
     ((), nb @ [\<lparr>memo = m, tags = t, creation_date = d, id_note = lid + 1\<rparr>], lid + 1) \<and>
   length (fst (snd (new_note nb m t d lid))) = length nb + 1 \<and>
   take (length nb) (fst (snd (new_note nb m t d lid))) = nb \<and>
   fst (new_note nb m t d lid) = ()"
  by (simp add: new_note_def Note_init_def)

text \<open>
  Claim C4. For every sequence of note creations in a process, on any notebooks or
  on none, the ids assigned are the consecutive integers following the counter, in
  creation order: as many as there are creations, pairwise distinct, strictly
  increasing, without gaps; the counter ends on the last id assigned, so no later
  creation can take one of them again. From the start of the process the ids are
  1, 2, ..., N.
\<close>

theorem ids_consecutive:
  "map id_note (fst (creations cs ps)) = [last_id ps + 1 .. last_id ps + int (length cs)] \<and>
   length (fst (creations cs ps)) = length cs \<and>
   distinct (map id_note (fst (creations cs ps))) \<and>
   sorted_wrt (<) (map id_note (fst (creations cs ps))) \<and>
   last_id (snd (creations cs ps)) = last_id ps + int (length cs) \<and>
   map id_note (fst (creations cs process_init)) = [1 .. int (length cs)]"
proof -
  have l: "length (fst (creations cs ps)) = length cs"
    using arg_cong[OF conjunct1[OF creations_ids[of cs ps]], of length] by simp
  have s: "sorted_wrt (<) [last_id ps + 1 .. last_id ps + int (length cs)]"
    by (simp add: strict_sorted_iff)
  have i: "map id_note (fst (creations cs process_init)) = [1 .. int (length cs)]"
    using creations_ids[of cs process_init] by (simp add: process_init_def)
  from l s i creations_ids[of cs ps] show ?thesis by simp
qed

text \<open>
  Claim C3. \<open>modify_memo\<close> reports success exactly when some note of the notebook has
  the id looked for (compared as text; for an integer argument: when a note has that
  integer as id). On success the note that the lookup finds carries the new memo
  afterwards; on failure the notebook is returned as it was. \<open>modify_tags\<close> does the
  same for the tags.
\<close>

theorem modify_contract:
  "(snd (modify_memo nb nid v) \<longleftrightarrow> (\<exists>n \<in> set nb. str_int (id_note n) = str_id nid)) \<and>
   (snd (modify_memo nb nid v) \<longrightarrow>
      (\<exists>n. find_note nb nid = Some n \<and>
           find_note (fst (modify_memo nb nid v)) nid = Some (n\<lparr>memo := v\<rparr>))) \<and>
   (\<not> snd (modify_memo nb nid v) \<longrightarrow> fst (modify_memo nb nid v) = nb) \<and>
   (snd (modify_tags nb nid w) \<longleftrightarrow> (\<exists>n \<in> set nb. str_int (id_note n) = str_id nid)) \<and>
   (snd (modify_tags nb nid w) \<longrightarrow>
      (\<exists>n. find_note nb nid = Some n \<and>
           find_note (fst (modify_tags nb nid w)) nid = Some (n\<lparr>tags := w\<rparr>))) \<and>
   (\<not> snd (modify_tags nb nid w) \<longrightarrow> fst (modify_tags nb nid w) = nb) \<and>
   (snd (modify_memo nb (IdInt k) v) \<longleftrightarrow> k \<in> id_note ` set nb) \<and>
   (snd (modify_tags nb (IdInt k) w) \<longleftrightarrow> k \<in> id_note ` set nb)"
proof -
  have k: "(snd (modify_memo nb (IdInt k) v) \<longleftrightarrow> k \<in> id_note ` set nb) \<and>
           (snd (modify_tags nb (IdInt k) w) \<longleftrightarrow> k \<in> id_note ` set nb)"
    by (simp only: modify_memo_snd modify_tags_snd find_note_ref_int)
  show ?thesis
  proof (cases "find_note_ref nb nid")
    case None
    then have "\<not> (\<exists>n \<in> set nb. str_int (id_note n) = str_id nid)"
      by (simp add: find_note_ref_None_iff)
    with k show ?thesis
      by (simp add: modify_memo_missing[OF None] modify_tags_missing[OF None])
  next
    case (Some i)
    from find_note_ref_Some[OF Some] have f: "find_note nb nid = Some (nb ! i)" by simp
    have ex: "\<exists>n \<in> set nb. str_int (id_note n) = str_id nid"
      using Some find_note_ref_None_iff[of nb nid] by auto
    have m: "find_note (nb[i := (nb ! i)\<lparr>memo := v\<rparr>]) nid = Some ((nb ! i)\<lparr>memo := v\<rparr>)"
      by (rule find_note_after_update[OF Some]) simp
    have t: "find_note (nb[i := (nb ! i)\<lparr>tags := w\<rparr>]) nid = Some ((nb ! i)\<lparr>tags := w\<rparr>)"
      by (rule find_note_after_update[OF Some]) simp
    from f ex m t k show ?thesis
      by (simp add: modify_memo_found[OF Some] modify_tags_found[OF Some])
  qed
qed

text \<open>
  On the notebook of the doctests: the second note is found by the text \<open>2\<close> and
  gets the new memo; no note has id 7, and the notebook stays as it is.
\<close>

theorem modify_contract_witness:
  "snd (modify_memo two_notes (IdStr ''2'') ''hi world'') \<and>
   (\<exists>n. find_note two_notes (IdStr ''2'') = Some n \<and>
        find_note (fst (modify_memo two_notes (IdStr ''2'') ''hi world'')) (IdStr ''2'') =
          Some (n\<lparr>memo := ''hi world''\<rparr>)) \<and>
   \<not> snd (modify_tags two_notes (IdInt 7) (TagsText ''work'')) \<and>
   fst (modify_tags two_notes (IdInt 7) (TagsText ''work'')) = two_notes"
proof -
  have found: "\<exists>n \<in> set two_notes. str_int (id_note n) = str_id (IdStr ''2'')"
    by (simp add: two_notes_def str_int_def str_nat.simps digit_char_def)
  have missing: "7 \<notin> id_note ` set two_notes"
    by (simp add: two_notes_def)
  from modify_contract[of two_notes "IdStr ''2''" "''hi world''" "TagsText ''work''" 7] found
  have a: "snd (modify_memo two_notes (IdStr ''2'') ''hi world'') \<and>
     (\<exists>n. find_note two_notes (IdStr ''2'') = Some n \<and>
        find_note (fst (modify_memo two_notes (IdStr ''2'') ''hi world'')) (IdStr ''2'') =
          Some (n\<lparr>memo := ''hi world''\<rparr>))"
    by blast
  from modify_contract[of two_notes "IdInt 7" "''hi world''" "TagsText ''work''" 7] missing
  have b: "\<not> snd (modify_tags two_notes (IdInt 7) (TagsText ''work'')) \<and>
     fst (modify_tags two_notes (IdInt 7) (TagsText ''work'')) = two_notes"
    by blast
  from a b show ?thesis by blast
qed

text \<open>
  Claim C7. The modify handler calls \<open>modify_memo\<close> exactly when the memo line is
  not empty and \<open>modify_tags\<close> exactly when the tags line is not empty, each with the
  id line and the text read. An empty line leaves the field of every note as it was;
  a non-empty line is stored in the note found. The handler writes its three prompts
  and nothing else, also when no note has the id, and then the notebook is unchanged.
\<close>

theorem modify_note_nonempty_only:
  "(CallModifyMemo (IdStr i) m \<in> set (snd (snd (modify_note nb i m t))) \<longleftrightarrow> m \<noteq> []) \<and>
   ((\<exists>x y. CallModifyMemo x y \<in> set (snd (snd (modify_note nb i m t)))) \<longleftrightarrow> m \<noteq> []) \<and>
   (CallModifyTags (IdStr i) (TagsText t) \<in> set (snd (snd (modify_note nb i m t))) \<longleftrightarrow> t \<noteq> []) \<and>
   ((\<exists>x y. CallModifyTags x y \<in> set (snd (snd (modify_note nb i m t)))) \<longleftrightarrow> t \<noteq> []) \<and>
   (m = [] \<longrightarrow> map memo (fst (modify_note nb i m t)) = map memo nb) \<and>
   (t = [] \<longrightarrow> map tags (fst (modify_note nb i m t)) = map tags nb) \<and>
   (m \<noteq> [] \<longrightarrow> find_note nb (IdStr i) \<noteq> None \<longrightarrow>
      map_option memo (find_note (fst (modify_note nb i m t)) (IdStr i)) = Some m) \<and>
   (t \<noteq> [] \<longrightarrow> find_note nb (IdStr i) \<noteq> None \<longrightarrow>
      map_option tags (find_note (fst (modify_note nb i m t)) (IdStr i)) = Some (TagsText t)) \<and>
   fst (snd (modify_note nb i m t)) =
     [Prompt ''Enter a note id: '', Prompt ''Enter a memo: '', Prompt ''Enter tags: ''] \<and>
   (find_note nb (IdStr i) = None \<longrightarrow> fst (modify_note nb i m t) = nb)"
proof -
  have c1: "CallModifyMemo (IdStr i) m \<in> set (snd (snd (modify_note nb i m t))) \<longleftrightarrow> m \<noteq> []"
    by (simp add: modify_note_calls)
  have c2: "(\<exists>x y. CallModifyMemo x y \<in> set (snd (snd (modify_note nb i m t)))) \<longleftrightarrow> m \<noteq> []"
    by (simp add: modify_note_calls)
  have c3: "CallModifyTags (IdStr i) (TagsText t) \<in> set (snd (snd (modify_note nb i m t))) \<longleftrightarrow> t \<noteq> []"
    by (simp add: modify_note_calls)
  have c4: "(\<exists>x y. CallModifyTags x y \<in> set (snd (snd (modify_note nb i m t)))) \<longleftrightarrow> t \<noteq> []"
    by (simp add: modify_note_calls)
  have e1: "m = [] \<longrightarrow> map memo (fst (modify_note nb i m t)) = map memo nb"
    by (simp add: modify_note_notebook modify_tags_memos)
  have e2: "t = [] \<longrightarrow> map tags (fst (modify_note nb i m t)) = map tags nb"
    by (simp add: modify_note_notebook modify_memo_tags)
  have e3: "map_option memo (find_note (fst (modify_note nb i m t)) (IdStr i)) = Some m"
    if m: "m \<noteq> []" and f: "find_note nb (IdStr i) \<noteq> None"
  proof -
    from f obtain n where n: "find_note nb (IdStr i) = Some n" by auto
    let ?nb1 = "fst (modify_memo nb (IdStr i) m)"
    have l1: "find_note ?nb1 (IdStr i) = Some (n\<lparr>memo := m\<rparr>)"
      by (rule modify_memo_lookup[OF n])
    show ?thesis
    proof (cases "t = []")
      case True
      with m l1 show ?thesis by (simp add: modify_note_notebook)
    next
      case False
      from modify_tags_lookup[OF l1, of "TagsText t"] m False show ?thesis
        by (simp add: modify_note_notebook)
    qed
  qed
  have e4: "map_option tags (find_note (fst (modify_note nb i m t)) (IdStr i)) = Some (TagsText t)"
    if t: "t \<noteq> []" and f: "find_note nb (IdStr i) \<noteq> None"
  proof -
    from f obtain n where n: "find_note nb (IdStr i) = Some n" by auto
    show ?thesis
    proof (cases "m = []")
      case True
      from modify_tags_lookup[OF n, of "TagsText t"] t True show ?thesis
        by (simp add: modify_note_notebook)
    next
      case False
      have l1: "find_note (fst (modify_memo nb (IdStr i) m)) (IdStr i) = Some (n\<lparr>memo := m\<rparr>)"
        by (rule modify_memo_lookup[OF n])
      from modify_tags_lookup[OF l1, of "TagsText t"] t False show ?thesis
        by (simp add: modify_note_notebook)
    qed
  qed
  have e5: "find_note nb (IdStr i) = None \<longrightarrow> fst (modify_note nb i m t) = nb"
    by (simp add: modify_note_notebook modify_memo_unfound modify_tags_unfound)
  from c1 c2 c3 c4 e1 e2 e3 e4 e5 modify_note_out[of nb i m t] show ?thesis by blast
qed

text \<open>
  On the notebook of the doctests: an empty memo line with tags \<open>work\<close>, a memo line
  with empty tags, and an id that no note has.
\<close>

theorem modify_note_nonempty_only_witness:
  "map memo (fst (modify_note two_notes ''1'' '''' ''work'')) = map memo two_notes \<and>
   map_option tags (find_note (fst (modify_note two_notes ''1'' '''' ''work'')) (IdStr ''1'')) =
     Some (TagsText ''work'') \<and>
   map tags (fst (modify_note two_notes ''1'' ''hi world'' '''')) = map tags two_notes \<and>
   map_option memo (find_note (fst (modify_note two_notes ''1'' ''hi world'' '''')) (IdStr ''1'')) =
     Some ''hi world'' \<and>
   fst (modify_note two_notes ''5'' ''hi world'' ''work'') = two_notes"
proof -
  have found: "find_note two_notes (IdStr ''1'') \<noteq> None"
    by (simp add: two_notes_def str_int_def str_nat.simps digit_char_def)
  have missing: "find_note two_notes (IdStr ''5'') = None"
    by (simp add: two_notes_def str_int_def str_nat.simps digit_char_def)
  from modify_note_nonempty_only[of "''1''" "''''" two_notes "''work''"] found
  have a: "map memo (fst (modify_note two_notes ''1'' '''' ''work'')) = map memo two_notes \<and>
     map_option tags (find_note (fst (modify_note two_notes ''1'' '''' ''work'')) (IdStr ''1'')) =
       Some (TagsText ''work'')"
    by simp
  from modify_note_nonempty_only[of "''1''" "''hi world''" two_notes "''''"] found
  have b: "map tags (fst (modify_note two_notes ''1'' ''hi world'' '''')) = map tags two_notes \<and>
     map_option memo (find_note (fst (modify_note two_notes ''1'' ''hi world'' '''')) (IdStr ''1'')) =
       Some ''hi world''"
    by simp
  from modify_note_nonempty_only[of "''5''" "''hi world''" two_notes "''work''"] missing
  have c: "fst (modify_note two_notes ''5'' ''hi world'' ''work'') = two_notes"
    by blast
  from a b c show ?thesis by blast
qed

text \<open>
  Claim C10. A successful \<open>modify_memo\<close> keeps the number of notes, the ids, the tags
  and the creation dates of all notes; the note at one position, whose id is the one
  looked for, gets the new memo, and the note at every other position is the same
  as before. A successful \<open>modify_tags\<close> does the same with memo and tags exchanged.
\<close>

theorem modify_changes_one_field:
  "(snd (modify_memo nb nid v) \<longrightarrow>
      length (fst (modify_memo nb nid v)) = length nb \<and>
      map id_note (fst (modify_memo nb nid v)) = map id_note nb \<and>
      map tags (fst (modify_memo nb nid v)) = map tags nb \<and>
      map creation_date (fst (modify_memo nb nid v)) = map creation_date nb \<and>
      (\<exists>i<length nb. str_int (id_note (nb ! i)) = str_id nid \<and>
         memo (fst (modify_memo nb nid v) ! i) = v \<and>
         (\<forall>j<length nb. j \<noteq> i \<longrightarrow> fst (modify_memo nb nid v) ! j = nb ! j))) \<and>
   (snd (modify_tags nb nid w) \<longrightarrow>
      length (fst (modify_tags nb nid w)) = length nb \<and>
      map id_note (fst (modify_tags nb nid w)) = map id_note nb \<and>
      map memo (fst (modify_tags nb nid w)) = map memo nb \<and>
      map creation_date (fst (modify_tags nb nid w)) = map creation_date nb \<and>
      (\<exists>i<length nb. str_int (id_note (nb ! i)) = str_id nid \<and>
         tags (fst (modify_tags nb nid w) ! i) = w \<and>
         (\<forall>j<length nb. j \<noteq> i \<longrightarrow> fst (modify_tags nb nid w) ! j = nb ! j)))"
  using modify_memo_frame[of nb nid v] modify_tags_frame[of nb nid w]
  by (simp add: modify_length modify_memo_ids modify_memo_tags modify_memo_dates
        modify_tags_ids modify_tags_memos modify_tags_dates)

text \<open>
  On the notebook of the doctests, with the memo change of the doctest of
  \<open>modify_memo\<close> and the tag change of the doctest of \<open>modify_tags\<close>.
\<close>

theorem modify_changes_one_field_witness:
  "map tags (fst (modify_memo two_notes (IdInt 1) ''hi world'')) = map tags two_notes \<and>
   map id_note (fst (modify_memo two_notes (IdInt 1) ''hi world'')) = [1, 2] \<and>
   (\<exists>i<length two_notes. memo (fst (modify_memo two_notes (IdInt 1) ''hi world'') ! i) = ''hi world'') \<and>
   map memo (fst (modify_tags two_notes (IdStr ''2'') (TagsList [''greetins'', ''h'', ''hi''])))
     = [''hello world'', ''hello again'']"
proof -
  have m: "snd (modify_memo two_notes (IdInt 1) ''hi world'')"
    by (simp add: modify_memo_def two_notes_def str_int_def str_nat.simps digit_char_def)
  have t: "snd (modify_tags two_notes (IdStr ''2'') (TagsList [''greetins'', ''h'', ''hi'']))"
    by (simp add: modify_tags_def two_notes_def str_int_def str_nat.simps digit_char_def)
  have ids: "map id_note two_notes = [1, 2]" "map memo two_notes = [''hello world'', ''hello again'']"
    by (simp_all add: two_notes_def)
  from modify_changes_one_field[of two_notes "IdInt 1" "''hi world''" "TagsText []"] m
  have a: "map tags (fst (modify_memo two_notes (IdInt 1) ''hi world'')) = map tags two_notes \<and>
     map id_note (fst (modify_memo two_notes (IdInt 1) ''hi world'')) = map id_note two_notes \<and>
     (\<exists>i<length two_notes. memo (fst (modify_memo two_notes (IdInt 1) ''hi world'') ! i) = ''hi world'')"
    by blast
  from modify_changes_one_field[of two_notes "IdStr ''2''" "''x''" "TagsList [''greetins'', ''h'', ''hi'']"] t
  have b: "map memo (fst (modify_tags two_notes (IdStr ''2'') (TagsList [''greetins'', ''h'', ''hi''])))
     = map memo two_notes"
    by blast
  from a b ids show ?thesis by simp
qed

text \<open>
  Claim C5. \<open>find_note\<close> gives \<open>None\<close> exactly when no note's id, written as text,
  equals the argument written as text; it gives a note exactly when that note is the
  first one in insertion order whose textual id matches. An integer and its decimal
  text find the same note, and for an integer argument the textual comparison is
  equality of ids.
\<close>

theorem find_note_first_textual_match:
  "(find_note nb nid = None \<longleftrightarrow> (\<forall>n \<in> set nb. str_int (id_note n) \<noteq> str_id nid)) \<and>
   (find_note nb nid = Some n \<longleftrightarrow>
      (\<exists>pre post. nb = pre @ n # post \<and> str_int (id_note n) = str_id nid \<and>
         (\<forall>x \<in> set pre. str_int (id_note x) \<noteq> str_id nid))) \<and>
   find_note nb (IdStr (str_int k)) = find_note nb (IdInt k) \<and>
   (find_note nb (IdInt k) = None \<longleftrightarrow> k \<notin> id_note ` set nb) \<and>
   (find_note nb (IdInt k) = Some n \<longrightarrow> id_note n = k)"
  using find_note_None[of nb nid] find_note_Some[of nb nid n] find_note_str_of_int[of nb k]
    find_note_int_None[of nb k] find_note_int_Some[of nb k n]
  by blast

text \<open>
  On the notebook of the doctests: the text \<open>2\<close> and the integer 2 find the second
  note; the text \<open>02\<close> and the integer 3 find none.
\<close>

theorem find_note_first_textual_match_witness:
  "find_note two_notes (IdStr ''2'') = Some (two_notes ! 1) \<and>
   find_note two_notes (IdStr (str_int 2)) = find_note two_notes (IdInt 2) \<and>
   find_note two_notes (IdStr ''02'') = None \<and>
   find_note two_notes (IdInt 3) = None"
proof -
  have "two_notes = [two_notes ! 0] @ (two_notes ! 1) # [] \<and>
        str_int (id_note (two_notes ! 1)) = str_id (IdStr ''2'') \<and>
        (\<forall>x \<in> set [two_notes ! 0]. str_int (id_note x) \<noteq> str_id (IdStr ''2''))"
    by (simp add: two_notes_def str_int_def str_nat.simps digit_char_def)
  then have d: "\<exists>pre post. two_notes = pre @ (two_notes ! 1) # post \<and>
        str_int (id_note (two_notes ! 1)) = str_id (IdStr ''2'') \<and>
        (\<forall>x \<in> set pre. str_int (id_note x) \<noteq> str_id (IdStr ''2''))"
    by blast
  have e: "\<forall>n \<in> set two_notes. str_int (id_note n) \<noteq> str_id (IdStr ''02'')"
    by (simp add: two_notes_def str_int_def str_nat.simps digit_char_def)
  have g: "3 \<notin> id_note ` set two_notes"
    by (simp add: two_notes_def)
  from find_note_first_textual_match[of two_notes "IdStr ''2''" "two_notes ! 1" 2] d
  have a: "find_note two_notes (IdStr ''2'') = Some (two_notes ! 1) \<and>
           find_note two_notes (IdStr (str_int 2)) = find_note two_notes (IdInt 2)"
    by blast
  from find_note_first_textual_match[of two_notes "IdStr ''02''" "two_notes ! 1" 3] e g
  have b: "find_note two_notes (IdStr ''02'') = None \<and> find_note two_notes (IdInt 3) = None"
    by blast
  from a b show ?thesis by blast
qed

text \<open>
  Claim C1 says that a search without matches renders no note. The handler passes
  the empty result to \<open>show_notes\<close>, whose test \<open>not notes\<close> takes the empty list
  for a missing argument and renders the whole notebook. After adding the note
  \<open>hello world\<close> in a fresh shell, searching for \<open>second\<close> finds no note and yet
  prints that note.
\<close>

theorem search_notes_no_match_shows_all:
  "search (fst (add_note Notebook_init ''hello world'' (Date 2026 11 4) 0)) ''second'' = [] \<and>
   search_notes (fst (add_note Notebook_init ''hello world'' (Date 2026 11 4) 0)) ''second'' =
     [Prompt ''Search for: '', PrintNote 1 (TagsText []) ''hello world'']"
  by (simp add: add_note_def new_note_def Note_init_def Notebook_init_def match_def
        search_notes_def show_notes_def)

end
